theory Spec2Isabelle
  imports Main "HOL-Library.Sublist" "HOL-Library.AList"
begin

section \<open>JavaScript values\<close>

text \<open>
  The lookup service of \<^verbatim>\<open>mapper.js\<close> is a JavaScript class. Its methods take any
  value, test it with \<^verbatim>\<open>!\<close>, call string methods on it and read a property of a table
  object. The values below are the JSON values, \<^verbatim>\<open>undefined\<close>, and the two kinds of
  object a property read on a plain object can reach through the prototype chain: a
  built-in function (carrying its \<^verbatim>\<open>name\<close>) and \<^verbatim>\<open>Object.prototype\<close> itself.
  Numbers are the integer-valued ones. Strings are lists of code units below 256
  (U+0000 to U+00FF); the identifiers of both namespaces are ASCII.
\<close>

datatype js_error = TypeError | NetworkError | SyntaxError

datatype jsval =
    JUndefined
  | JNull
  | JBool bool
  | JNum int
  | JStr string
  | JArr "jsval list"
  | JObj "(string \<times> jsval) list"
  | JFunction string
  | JObjectPrototype

type_synonym jsobject = "(string \<times> jsval) list"

text \<open>\<^verbatim>\<open>!v\<close> is false exactly for the truthy values.\<close>

fun truthy :: "jsval \<Rightarrow> bool" where
  "truthy JUndefined = False"
| "truthy JNull = False"
| "truthy (JBool b) = b"
| "truthy (JNum n) = (n \<noteq> 0)"
| "truthy (JStr s) = (s \<noteq> [])"
| "truthy (JArr xs) = True"
| "truthy (JObj ps) = True"
| "truthy (JFunction f) = True"
| "truthy JObjectPrototype = True"

text \<open>\<^verbatim>\<open>v || null\<close>\<close>

definition or_null :: "jsval \<Rightarrow> jsval" where
  "or_null v = (if truthy v then v else JNull)"

subsection \<open>Property reads on plain objects\<close>

text \<open>
  Both tables start as \<^verbatim>\<open>{}\<close> and are replaced by the result of \<^verbatim>\<open>response.json()\<close>:
  plain objects whose prototype is \<^verbatim>\<open>Object.prototype\<close>. A read \<^verbatim>\<open>obj[key]\<close> returns
  the own property when there is one, and otherwise what \<^verbatim>\<open>Object.prototype\<close> has
  under that name: the accessor \<^verbatim>\<open>__proto__\<close> (the prototype itself), the
  \<^verbatim>\<open>constructor\<close> (the function named \<^verbatim>\<open>Object\<close>), one of the built-in methods
  (each a function named as its key), or \<^verbatim>\<open>undefined\<close>.
\<close>

definition object_prototype_methods :: "string list" where
  "object_prototype_methods =
     [''__defineGetter__'', ''__defineSetter__'', ''hasOwnProperty'',
      ''__lookupGetter__'', ''__lookupSetter__'', ''isPrototypeOf'',
      ''propertyIsEnumerable'', ''toString'', ''valueOf'', ''toLocaleString'']"

definition object_prototype_get :: "string \<Rightarrow> jsval" where
  "object_prototype_get key =
     (if key = ''__proto__'' then JObjectPrototype
      else if key = ''constructor'' then JFunction ''Object''
      else if key \<in> set object_prototype_methods then JFunction key
      else JUndefined)"

definition get_prop :: "jsobject \<Rightarrow> string \<Rightarrow> jsval" where
  "get_prop obj key =
     (case map_of obj key of
        Some v \<Rightarrow> v
      | None \<Rightarrow> object_prototype_get key)"

text \<open>
  \<^verbatim>\<open>data.name\<close>: a property read on any value. It throws on \<^verbatim>\<open>null\<close> and
  \<^verbatim>\<open>undefined\<close>; a function has its name; a plain object is read as above; nothing
  else among these values has a property \<^verbatim>\<open>name\<close>.
\<close>

fun member_name :: "jsval \<Rightarrow> js_error + jsval" where
  "member_name JUndefined = Inl TypeError"
| "member_name JNull = Inl TypeError"
| "member_name (JObj ps) = Inr (get_prop ps ''name'')"
| "member_name (JFunction f) = Inr (JStr f)"
| "member_name v = Inr JUndefined"

section \<open>String methods\<close>

text \<open>
  \<^verbatim>\<open>trim\<close> removes white space and line terminators from both ends; among the
  code units below 256 these are U+0009 to U+000D, U+0020 and U+00A0.
\<close>

definition is_whitespace :: "char \<Rightarrow> bool" where
  "is_whitespace c = (let n = (of_char c :: nat) in (9 \<le> n \<and> n \<le> 13) \<or> n = 32 \<or> n = 160)"

definition trim :: "string \<Rightarrow> string" where
  "trim s = rev (dropWhile is_whitespace (rev (dropWhile is_whitespace s)))"

text \<open>
  \<^verbatim>\<open>toUpperCase\<close> on ASCII: the letters \<^verbatim>\<open>a\<close> to \<^verbatim>\<open>z\<close> go to \<^verbatim>\<open>A\<close> to \<^verbatim>\<open>Z\<close>
  and the other code units below 128 stay, as in JavaScript. The code units from 128
  on stay as well; JavaScript changes U+00B5 and U+00DF to U+00FF among them (some to
  code units from 256 on, which these strings do not have), so on a string with one
  of those the function below is not JavaScript's.
\<close>

definition upper_char :: "char \<Rightarrow> char" where
  "upper_char c = (let n = (of_char c :: nat) in if 97 \<le> n \<and> n \<le> 122 then char_of (n - 32) else c)"

definition toUpperCase :: "string \<Rightarrow> string" where
  "toUpperCase s = map upper_char s"

text \<open>
  \<^verbatim>\<open>s.replace(pat, rep)\<close> with a string pattern: the first occurrence of \<^verbatim>\<open>pat\<close>,
  scanning from the left, is replaced; a string without the pattern is returned as
  it is. (The replacement is taken literally: the source passes the empty string.)
\<close>

fun replace :: "string \<Rightarrow> string \<Rightarrow> string \<Rightarrow> string" where
  "replace [] pat rep = (if pat = [] then rep else [])"
| "replace (c # cs) pat rep =
     (if prefix pat (c # cs) then rep @ drop (length pat) (c # cs)
      else c # replace cs pat rep)"

text \<open>
  The pattern occurs somewhere in the string (\<^verbatim>\<open>s.includes(pat)\<close>). The source does
  not call it; the statements about \<^verbatim>\<open>replace\<close> do.
\<close>

fun str_includes :: "string \<Rightarrow> string \<Rightarrow> bool" where
  "str_includes [] pat = (pat = [])"
| "str_includes (c # cs) pat = (prefix pat (c # cs) \<or> str_includes cs pat)"

section \<open>The lookup service\<close>

text \<open>The two fields of a \<^verbatim>\<open>MonarchOmimMapper\<close>.\<close>

record mapper =
  monarchMappings :: jsobject
  omimMappings :: jsobject

text \<open>The constructor's two assignments, before \<^verbatim>\<open>loadMappings\<close> has completed.\<close>

definition constructor :: mapper where
  "constructor = \<lparr>monarchMappings = [], omimMappings = []\<rparr>"

text \<open>
  The arguments are the values a caller holds as data: strings, \<^verbatim>\<open>null\<close>,
  \<^verbatim>\<open>undefined\<close>, and the other values above. A method call on one that is not a string
  (\<^verbatim>\<open>monarchId.trim()\<close>, \<^verbatim>\<open>omimId.replace(...)\<close>) throws a \<^verbatim>\<open>TypeError\<close>: it
  has no method of that name. An object to which the caller has given a function of
  its own under that name is not among the arguments modelled.
\<close>

definition getMonarchToOmim :: "mapper \<Rightarrow> jsval \<Rightarrow> js_error + jsval" where
  "getMonarchToOmim this monarchId =
     (if \<not> truthy monarchId then Inr JNull
      else case monarchId of
        JStr s \<Rightarrow>
          (let cleanMonarchId = toUpperCase (trim s)
           in Inr (or_null (get_prop (monarchMappings this) cleanMonarchId)))
      | _ \<Rightarrow> Inl TypeError)"

definition getOmimToMonarch :: "mapper \<Rightarrow> jsval \<Rightarrow> js_error + jsval" where
  "getOmimToMonarch this omimId =
     (if \<not> truthy omimId then Inr JNull
      else case omimId of
        JStr s \<Rightarrow>
          (let cleanOmimId = trim (replace s ''OMIM:'' '''')
           in Inr (or_null (get_prop (omimMappings this) cleanOmimId)))
      | _ \<Rightarrow> Inl TypeError)"

definition getDiseaseName :: "mapper \<Rightarrow> jsval \<Rightarrow> js_error + jsval" where
  "getDiseaseName this monarchId =
     (case getMonarchToOmim this monarchId of
        Inl err \<Rightarrow> Inl err
      | Inr data \<Rightarrow> if truthy data then member_name data else Inr JNull)"

definition getOmimName :: "mapper \<Rightarrow> jsval \<Rightarrow> js_error + jsval" where
  "getOmimName this omimId =
     (case getOmimToMonarch this omimId of
        Inl err \<Rightarrow> Inl err
      | Inr data \<Rightarrow> if truthy data then member_name data else Inr JNull)"

subsection \<open>The methods, statement by statement\<close>

text \<open>
  The functions above give the value of a call. Below, the same four bodies are
  written statement by statement over the object: a step takes the object and gives
  the value it computes, or the error it throws, together with the object as the
  step leaves it. Nothing in the type of a step keeps it from changing the object.
\<close>

type_synonym 'a step = "mapper \<Rightarrow> (js_error + 'a) \<times> mapper"

definition returns :: "'a \<Rightarrow> 'a step" where
  "returns x = (\<lambda>this. (Inr x, this))"

definition throws :: "js_error \<Rightarrow> 'a step" where
  "throws err = (\<lambda>this. (Inl err, this))"

text \<open>One step, then the rest with its value; an error ends the body.\<close>

definition and_then :: "'a step \<Rightarrow> ('a \<Rightarrow> 'b step) \<Rightarrow> 'b step" where
  "and_then m f =
     (\<lambda>this. case m this of
        (Inl err, this1) \<Rightarrow> (Inl err, this1)
      | (Inr x, this1) \<Rightarrow> f x this1)"

text \<open>The reads \<^verbatim>\<open>this.monarchMappings\<close> and \<^verbatim>\<open>this.omimMappings\<close>.\<close>

definition read_monarchMappings :: "jsobject step" where
  "read_monarchMappings = (\<lambda>this. (Inr (monarchMappings this), this))"

definition read_omimMappings :: "jsobject step" where
  "read_omimMappings = (\<lambda>this. (Inr (omimMappings this), this))"

text \<open>The method calls \<^verbatim>\<open>v.trim()\<close> and \<^verbatim>\<open>v.replace(pat, rep)\<close> on an argument.\<close>

definition call_trim :: "jsval \<Rightarrow> string step" where
  "call_trim v = (case v of JStr s \<Rightarrow> returns (trim s) | _ \<Rightarrow> throws TypeError)"

definition call_replace :: "jsval \<Rightarrow> string \<Rightarrow> string \<Rightarrow> string step" where
  "call_replace v pat rep =
     (case v of JStr s \<Rightarrow> returns (replace s pat rep) | _ \<Rightarrow> throws TypeError)"

definition getMonarchToOmim_body :: "jsval \<Rightarrow> jsval step" where
  "getMonarchToOmim_body monarchId =
     (if \<not> truthy monarchId then returns JNull
      else
        and_then (call_trim monarchId) (\<lambda>trimmed.
        and_then (returns (toUpperCase trimmed)) (\<lambda>cleanMonarchId.
        and_then read_monarchMappings (\<lambda>table.
        returns (or_null (get_prop table cleanMonarchId))))))"

definition getOmimToMonarch_body :: "jsval \<Rightarrow> jsval step" where
  "getOmimToMonarch_body omimId =
     (if \<not> truthy omimId then returns JNull
      else
        and_then (call_replace omimId ''OMIM:'' []) (\<lambda>replaced.
        and_then (returns (trim replaced)) (\<lambda>cleanOmimId.
        and_then read_omimMappings (\<lambda>table.
        returns (or_null (get_prop table cleanOmimId))))))"

text \<open>\<^verbatim>\<open>data ? data.name : null\<close>\<close>

definition name_or_null :: "jsval \<Rightarrow> jsval step" where
  "name_or_null data =
     (if truthy data
      then (case member_name data of Inl err \<Rightarrow> throws err | Inr n \<Rightarrow> returns n)
      else returns JNull)"

definition getDiseaseName_body :: "jsval \<Rightarrow> jsval step" where
  "getDiseaseName_body monarchId = and_then (getMonarchToOmim_body monarchId) name_or_null"

definition getOmimName_body :: "jsval \<Rightarrow> jsval step" where
  "getOmimName_body omimId = and_then (getOmimToMonarch_body omimId) name_or_null"

text \<open>A call is a method name with its argument; invoking it runs the body.\<close>

datatype call =
    GetMonarchToOmim jsval
  | GetOmimToMonarch jsval
  | GetDiseaseName jsval
  | GetOmimName jsval

fun invoke :: "call \<Rightarrow> jsval step" where
  "invoke (GetMonarchToOmim v) = getMonarchToOmim_body v"
| "invoke (GetOmimToMonarch v) = getOmimToMonarch_body v"
| "invoke (GetDiseaseName v) = getDiseaseName_body v"
| "invoke (GetOmimName v) = getOmimName_body v"

section \<open>Loading the tables\<close>

text \<open>
  \<^verbatim>\<open>loadMappings\<close> awaits both fetches together, then parses the first response and
  assigns it, then the second. A fetch is rejected or gives a response; a response is
  what its \<^verbatim>\<open>json()\<close> gives: an error or the table. The persisted documents are
  JSON objects; a document that parses to a value of another kind is not modelled.
  The code does not look at the status of a response, and neither does the model. Whatever is thrown inside \<^verbatim>\<open>try\<close> reaches the one \<^verbatim>\<open>catch\<close>, which
  assigns \<^verbatim>\<open>{}\<close> to both fields. The error is logged and goes no further.
\<close>

type_synonym response = "js_error + jsobject"

text \<open>The body of \<^verbatim>\<open>try\<close>: the error thrown with the object as it is then, or the object.\<close>

definition loadMappings_try ::
  "mapper \<Rightarrow> js_error + response \<Rightarrow> js_error + response \<Rightarrow> js_error \<times> mapper + mapper" where
  "loadMappings_try this monarchFetch omimFetch =
     (case monarchFetch of
        Inl err \<Rightarrow> Inl (err, this)
      | Inr monarchResponse \<Rightarrow>
          (case omimFetch of
             Inl err \<Rightarrow> Inl (err, this)
           | Inr omimResponse \<Rightarrow>
               (case monarchResponse of
                  Inl err \<Rightarrow> Inl (err, this)
                | Inr monarchTable \<Rightarrow>
                    (let this1 = this\<lparr>monarchMappings := monarchTable\<rparr>
                     in case omimResponse of
                          Inl err \<Rightarrow> Inl (err, this1)
                        | Inr omimTable \<Rightarrow> Inr (this1\<lparr>omimMappings := omimTable\<rparr>)))))"

definition loadMappings ::
  "mapper \<Rightarrow> js_error + response \<Rightarrow> js_error + response \<Rightarrow> mapper" where
  "loadMappings this monarchFetch omimFetch =
     (case loadMappings_try this monarchFetch omimFetch of
        Inl (err, this1) \<Rightarrow> this1\<lparr>monarchMappings := [], omimMappings := []\<rparr>
      | Inr this1 \<Rightarrow> this1)"

section \<open>The persisted tables\<close>

text \<open>
  Modelled from the spec: the two data files and the script that writes them
  (\<^verbatim>\<open>updateMapping.py\<close>) are not among the sources; the shape of a record of the
  forward table, \<^verbatim>\<open>{externalId, name}\<close>, is the one the specification gives for the
  persisted document.
\<close>

definition forward_value :: "string \<Rightarrow> string \<Rightarrow> jsval" where
  "forward_value e n = JObj [(''externalId'', JStr e), (''name'', JStr n)]"

text \<open>
  Modelled from the spec: the data files are not among the sources; a record of the
  reverse table is \<^verbatim>\<open>{knowledgeBaseId, name}\<close>, as the specification gives it.
\<close>

definition reverse_value :: "string \<Rightarrow> string \<Rightarrow> jsval" where
  "reverse_value k n = JObj [(''knowledgeBaseId'', JStr k), (''name'', JStr n)]"

text \<open>
  Modelled from the spec: the data files are not among the sources; an external
  identifier is, as the specification gives it for both persisted documents, a
  catalog number written in digits, without prefix and not empty.
\<close>

definition is_digit :: "char \<Rightarrow> bool" where
  "is_digit c = (let n = (of_char c :: nat) in 48 \<le> n \<and> n \<le> 57)"

definition external_identifier :: "string \<Rightarrow> bool" where
  "external_identifier e \<longleftrightarrow> e \<noteq> [] \<and> list_all is_digit e"

text \<open>
  The reverse table is the exact inverse of the forward table: \<open>k\<close> maps to
  \<open>{e, n}\<close> in the one exactly when \<open>e\<close> maps to \<open>{k, n}\<close> in the other.
\<close>

definition exact_inverse :: "jsobject \<Rightarrow> jsobject \<Rightarrow> bool" where
  "exact_inverse forward reverse \<longleftrightarrow>
     (\<forall>k e n. map_of forward k = Some (forward_value e n)
               \<longleftrightarrow> map_of reverse e = Some (reverse_value k n))"

subsection \<open>The Reverse-Index Builder\<close>

text \<open>
  Modelled from the spec: the builder (\<^verbatim>\<open>updateMapping.py --reverse\<close>) is not among
  the sources. Its input is the forward table, a dictionary of records
  \<^verbatim>\<open>{externalId, name}\<close> given by its entries in insertion order.
\<close>

record forward_record =
  externalId :: string
  name :: string

text \<open>
  Modelled from the spec: the builder is not among the sources. Its output is a
  dictionary of records \<^verbatim>\<open>{knowledgeBaseId, name}\<close>.
\<close>

record reverse_record =
  knowledgeBaseId :: string
  name :: string

text \<open>
  Modelled from the spec: the builder is not among the sources. The entry
  \<open>k \<mapsto> {e, n}\<close> of the forward table gives the entry \<open>e \<mapsto> {k, n}\<close>.
\<close>

definition reverse_entry :: "string \<times> forward_record \<Rightarrow> string \<times> reverse_record" where
  "reverse_entry kv =
     (externalId (snd kv), \<lparr>knowledgeBaseId = fst kv, name = forward_record.name (snd kv)\<rparr>)"

text \<open>
  Modelled from the spec: the builder is not among the sources. It makes one pass over
  the forward table in its insertion order and stores the entry of each forward
  entry in the reverse table, which starts empty; storing under a key that is
  already there overwrites the value in place, and a new key goes to the end.
\<close>

definition build_reverse :: "(string \<times> forward_record) list \<Rightarrow> (string \<times> reverse_record) list" where
  "build_reverse forward =
     fold (\<lambda>kv reverse. AList.update (fst (reverse_entry kv)) (snd (reverse_entry kv)) reverse)
       forward []"

section \<open>Case variants\<close>

text \<open>
  Two strings are case variants of each other when they have the same length and
  agree at each position up to the case of a letter.
\<close>

definition same_letter :: "char \<Rightarrow> char \<Rightarrow> bool" where
  "same_letter c d \<longleftrightarrow> c = d \<or> upper_char c = d \<or> c = upper_char d"

definition case_variant :: "string \<Rightarrow> string \<Rightarrow> bool" where
  "case_variant s t \<longleftrightarrow> list_all2 same_letter s t"

section \<open>Properties of the string methods\<close>

lemma upper_char_whitespace: "is_whitespace (upper_char c) = is_whitespace c"
  by (auto simp: is_whitespace_def upper_char_def Let_def)

lemma upper_char_idem: "upper_char (upper_char c) = upper_char c"
  by (auto simp: upper_char_def Let_def)

lemma upper_char_fixed: "upper_char c = c \<Longrightarrow> \<not> (97 \<le> (of_char c :: nat) \<and> (of_char c :: nat) \<le> 122)"
proof
  assume fixed: "upper_char c = c" and low: "97 \<le> (of_char c :: nat) \<and> (of_char c :: nat) \<le> 122"
  then have "upper_char c = char_of (of_char c - 32 :: nat)"
    by (simp add: upper_char_def)
  then have "(of_char (upper_char c) :: nat) = (of_char c - 32) mod 256"
    by simp
  with fixed have "(of_char c :: nat) = (of_char c - 32) mod 256"
    by simp
  moreover from low have "(of_char c - 32 :: nat) < 256"
    by linarith
  then have "(of_char c - 32 :: nat) mod 256 = of_char c - 32"
    by (rule mod_less)
  ultimately show False using low by linarith
qed

lemma trim_toUpperCase: "trim (toUpperCase s) = toUpperCase (trim s)"
  by (simp add: trim_def toUpperCase_def dropWhile_map rev_map comp_def upper_char_whitespace)

lemma toUpperCase_fixed: "c \<in> set (toUpperCase s) \<Longrightarrow> upper_char c = c"
  by (auto simp: toUpperCase_def upper_char_idem)

lemma toUpperCase_no_lower:
  "c \<in> set (toUpperCase s) \<Longrightarrow> \<not> (97 \<le> (of_char c :: nat) \<and> (of_char c :: nat) \<le> 122)"
  using toUpperCase_fixed upper_char_fixed by blast

lemma case_variant_toUpperCase: "case_variant s t \<Longrightarrow> toUpperCase s = toUpperCase t"
  unfolding case_variant_def toUpperCase_def
  by (induction rule: list_all2_induct) (auto simp: same_letter_def upper_char_idem)

lemma replace_absent: "\<not> str_includes s pat \<Longrightarrow> replace s pat rep = s"
  by (induction s) auto

lemma replace_prefix: "replace (pat @ s) pat [] = s"
proof (cases "pat @ s")
  case Nil
  then show ?thesis by simp
next
  case (Cons a l)
  have "prefix pat (a # l)" by (simp flip: Cons)
  moreover have "drop (length pat) (a # l) = s" by (simp flip: Cons)
  ultimately show ?thesis by (simp add: Cons)
qed

lemma no_early_match:
  assumes "\<not> prefix ''OMIM:'' (c # cs)"
  shows "\<not> prefix ''OMIM:'' (c # (cs @ ''OMIM:'' @ y))"
proof
  assume "prefix ''OMIM:'' (c # (cs @ ''OMIM:'' @ y))"
  then have "prefix ''OMIM:'' ((c # cs) @ (''OMIM:'' @ y))"
    by (simp only: append_Cons)
  then have "prefix ''OMIM:'' (c # cs)
      \<or> (\<exists>us. ''OMIM:'' = (c # cs) @ us \<and> prefix us (''OMIM:'' @ y))"
    by (simp only: prefix_append)
  with assms obtain us where split: "''OMIM:'' = (c # cs) @ us"
    and rest: "prefix us (''OMIM:'' @ y)"
    by blast
  from split rest assms show False
    by (auto simp: Cons_eq_append_conv)
qed

lemma replace_first_occurrence:
  "\<not> str_includes x ''OMIM:'' \<Longrightarrow> replace (x @ ''OMIM:'' @ y) ''OMIM:'' [] = x @ y"
proof (induction x)
  case Nil
  show ?case using replace_prefix [of "''OMIM:''" y] by simp
next
  case (Cons c cs)
  then have no: "\<not> prefix ''OMIM:'' (c # cs)" and "\<not> str_includes cs ''OMIM:''"
    by simp_all
  then have IH: "replace (cs @ ''OMIM:'' @ y) ''OMIM:'' [] = cs @ y"
    using Cons.IH by blast
  have "replace (c # (cs @ ''OMIM:'' @ y)) ''OMIM:'' [] = c # replace (cs @ ''OMIM:'' @ y) ''OMIM:'' []"
    using no_early_match [OF no, of y] by (simp only: replace.simps if_False)
  with IH show ?case by (simp only: append_Cons)
qed

lemma lower_prefix_kept:
  assumes "\<not> str_includes d ''OMIM:''"
  shows "replace (''omim:'' @ d) ''OMIM:'' [] = ''omim:'' @ d"
proof -
  have "\<not> str_includes (''omim:'' @ d) ''OMIM:''"
    using assms by simp
  then show ?thesis by (rule replace_absent)
qed

text \<open>
  An external identifier is its own key: it has no white space at an end and no token.
\<close>

lemma digit_not_whitespace: "is_digit c \<Longrightarrow> \<not> is_whitespace c"
  by (auto simp: is_digit_def is_whitespace_def Let_def)

lemma trim_unchanged:
  assumes "s \<noteq> []" and "\<not> is_whitespace (hd s)" and "\<not> is_whitespace (last s)"
  shows "trim s = s"
proof -
  from assms(1,2) have "dropWhile is_whitespace s = s"
    by (cases s) simp_all
  moreover from assms(1,3) have "dropWhile is_whitespace (rev s) = rev s"
    by (cases "rev s") (simp_all add: hd_rev [symmetric] del: hd_rev)
  ultimately show ?thesis
    by (simp add: trim_def)
qed

lemma external_identifier_trim: "external_identifier e \<Longrightarrow> trim e = e"
proof -
  assume e: "external_identifier e"
  then have ne: "e \<noteq> []" and all: "\<forall>c \<in> set e. is_digit c"
    by (simp_all add: external_identifier_def list_all_iff)
  from ne all have "is_digit (hd e)" and "is_digit (last e)"
    by simp_all
  then show ?thesis
    using ne by (intro trim_unchanged digit_not_whitespace)
qed

lemma digits_no_token: "list_all is_digit e \<Longrightarrow> \<not> str_includes e ''OMIM:''"
proof (induction e)
  case Nil
  show ?case by simp
next
  case (Cons c cs)
  then have "is_digit c" and rest: "\<not> str_includes cs ''OMIM:''"
    by simp_all
  then have "c \<noteq> CHR ''O''"
    by (auto simp: is_digit_def)
  with rest show ?case by simp
qed

lemma external_identifier_no_token: "external_identifier e \<Longrightarrow> \<not> str_includes e ''OMIM:''"
  by (simp add: external_identifier_def digits_no_token)

lemma external_identifier_key:
  "external_identifier e \<Longrightarrow> trim (replace e ''OMIM:'' []) = e"
  by (simp add: replace_absent external_identifier_no_token external_identifier_trim)

lemma lower_prefix_key:
  assumes "external_identifier d"
  shows "trim (replace (''omim:'' @ d) ''OMIM:'' []) = ''omim:'' @ d"
proof -
  from assms have ne: "d \<noteq> []" and all: "\<forall>c \<in> set d. is_digit c"
    by (simp_all add: external_identifier_def list_all_iff)
  then have "is_digit (last d)" by simp
  then have "\<not> is_whitespace (last (''omim:'' @ d))"
    using ne by (simp add: digit_not_whitespace)
  moreover have "\<not> is_whitespace (hd (''omim:'' @ d))"
    by (simp add: is_whitespace_def)
  ultimately have "trim (''omim:'' @ d) = ''omim:'' @ d"
    by (intro trim_unchanged) simp_all
  then show ?thesis
    using lower_prefix_kept [OF external_identifier_no_token [OF assms]] by simp
qed

section \<open>Properties of the lookups\<close>

lemma or_null_cases: "or_null v = JNull \<or> truthy (or_null v)"
  by (simp add: or_null_def)

lemma or_null_truthy: "truthy v \<Longrightarrow> or_null v = v"
  by (simp add: or_null_def)

lemma get_prop_own: "map_of obj key = Some v \<Longrightarrow> get_prop obj key = v"
  by (simp add: get_prop_def)

text \<open>A lookup returns \<^verbatim>\<open>null\<close> or a truthy value.\<close>

lemma getMonarchToOmim_result: "getMonarchToOmim this v = Inr r \<Longrightarrow> r = JNull \<or> truthy r"
  using or_null_cases
  by (auto simp: getMonarchToOmim_def Let_def split: if_splits jsval.splits)

lemma getOmimToMonarch_result: "getOmimToMonarch this v = Inr r \<Longrightarrow> r = JNull \<or> truthy r"
  using or_null_cases
  by (auto simp: getOmimToMonarch_def Let_def split: if_splits jsval.splits)

text \<open>A lookup of a non-empty string reads the table under the normalised key.\<close>

lemma getMonarchToOmim_string:
  "s \<noteq> [] \<Longrightarrow> getMonarchToOmim this (JStr s) =
     Inr (or_null (get_prop (monarchMappings this) (toUpperCase (trim s))))"
  by (simp add: getMonarchToOmim_def)

lemma getOmimToMonarch_string:
  "s \<noteq> [] \<Longrightarrow> getOmimToMonarch this (JStr s) =
     Inr (or_null (get_prop (omimMappings this) (trim (replace s ''OMIM:'' ''''))))"
  by (simp add: getOmimToMonarch_def)

text \<open>A lookup of \<^verbatim>\<open>null\<close>, \<^verbatim>\<open>undefined\<close> or the empty string returns \<^verbatim>\<open>null\<close>.\<close>

lemma getMonarchToOmim_falsy: "\<not> truthy v \<Longrightarrow> getMonarchToOmim this v = Inr JNull"
  by (simp add: getMonarchToOmim_def)

lemma getOmimToMonarch_falsy: "\<not> truthy v \<Longrightarrow> getOmimToMonarch this v = Inr JNull"
  by (simp add: getOmimToMonarch_def)

text \<open>
  An upper-cased key is never the name of a property of \<^verbatim>\<open>Object.prototype\<close>: each of
  those names has a lower-case letter. So a lookup by knowledge-base identifier that
  finds no own property returns \<^verbatim>\<open>null\<close>. A lookup by external identifier returns
  \<^verbatim>\<open>null\<close> when, in addition, the key is not such a name.
\<close>

lemma toUpperCase_not_inherited: "object_prototype_get (toUpperCase s) = JUndefined"
proof -
  have o: "CHR ''o'' \<notin> set (toUpperCase s)" and t: "CHR ''t'' \<notin> set (toUpperCase s)"
   and e: "CHR ''e'' \<notin> set (toUpperCase s)"
    using toUpperCase_no_lower [of _ s] by fastforce+
  have "toUpperCase s \<noteq> ''__proto__''" "toUpperCase s \<noteq> ''constructor''"
    using o by auto
  moreover have "toUpperCase s \<notin> set object_prototype_methods"
    using o t e by (auto simp: object_prototype_methods_def)
  ultimately show ?thesis
    by (simp add: object_prototype_get_def)
qed

lemma getMonarchToOmim_miss:
  assumes "map_of (monarchMappings this) (toUpperCase (trim s)) = None"
  shows "getMonarchToOmim this (JStr s) = Inr JNull"
  using assms
  by (cases "s = []")
     (simp_all add: getMonarchToOmim_falsy getMonarchToOmim_string get_prop_def
        toUpperCase_not_inherited or_null_def)

lemma getDiseaseName_miss:
  assumes "map_of (monarchMappings this) (toUpperCase (trim s)) = None"
  shows "getDiseaseName this (JStr s) = Inr JNull"
  using getMonarchToOmim_miss [OF assms] by (simp add: getDiseaseName_def)

lemma getOmimToMonarch_miss:
  assumes "map_of (omimMappings this) (trim (replace s ''OMIM:'' '''')) = None"
    and "object_prototype_get (trim (replace s ''OMIM:'' '''')) = JUndefined"
  shows "getOmimToMonarch this (JStr s) = Inr JNull"
  using assms
  by (cases "s = []")
     (simp_all add: getOmimToMonarch_falsy getOmimToMonarch_string get_prop_def or_null_def)

text \<open>The name of a record of either table.\<close>

lemma member_name_forward_value: "member_name (forward_value e n) = Inr (JStr n)"
  by (simp add: forward_value_def get_prop_def)

lemma member_name_reverse_value: "member_name (reverse_value k n) = Inr (JStr n)"
  by (simp add: reverse_value_def get_prop_def)

text \<open>A table of one entry and its inverse.\<close>

lemma exact_inverse_single:
  "exact_inverse [(k, forward_value e n)] [(e, reverse_value k n)]"
  by (auto simp: exact_inverse_def forward_value_def reverse_value_def)

text \<open>
  The body of each method, run on an object, gives the value of the call and the
  object it was run on.
\<close>

lemma getMonarchToOmim_body_value:
  "getMonarchToOmim_body v this = (getMonarchToOmim this v, this)"
  by (simp add: getMonarchToOmim_body_def getMonarchToOmim_def and_then_def returns_def
        throws_def call_trim_def read_monarchMappings_def split: jsval.splits)

lemma getOmimToMonarch_body_value:
  "getOmimToMonarch_body v this = (getOmimToMonarch this v, this)"
  by (simp add: getOmimToMonarch_body_def getOmimToMonarch_def and_then_def returns_def
        throws_def call_replace_def read_omimMappings_def split: jsval.splits)

lemma name_or_null_value:
  "name_or_null data this = ((if truthy data then member_name data else Inr JNull), this)"
  by (simp add: name_or_null_def returns_def throws_def split: sum.splits)

lemma getDiseaseName_body_value:
  "getDiseaseName_body v this = (getDiseaseName this v, this)"
  by (simp add: getDiseaseName_body_def getDiseaseName_def and_then_def
        getMonarchToOmim_body_value name_or_null_value split: sum.splits)

lemma getOmimName_body_value:
  "getOmimName_body v this = (getOmimName this v, this)"
  by (simp add: getOmimName_body_def getOmimName_def and_then_def
        getOmimToMonarch_body_value name_or_null_value split: sum.splits)

section \<open>Properties of the Reverse-Index Builder\<close>

lemma map_of_fold_update:
  "map_of (fold (\<lambda>kv reverse. AList.update (fst (reverse_entry kv)) (snd (reverse_entry kv)) reverse) forward acc)
     = map_of acc ++ map_of (rev (map reverse_entry forward))"
proof (induction forward arbitrary: acc)
  case Nil
  show ?case by simp
next
  case (Cons kv forward)
  show ?case
    by (auto simp: Cons.IH update_conv' map_add_def fun_eq_iff split: option.splits)
qed

lemma distinct_fold_update:
  "distinct (map fst acc) \<Longrightarrow>
   distinct (map fst (fold (\<lambda>kv reverse. AList.update (fst (reverse_entry kv)) (snd (reverse_entry kv)) reverse) forward acc))"
  by (induction forward arbitrary: acc) (simp_all add: distinct_update)

lemma build_reverse_distinct: "distinct (map fst (build_reverse forward))"
  by (simp add: build_reverse_def distinct_fold_update)

lemma map_of_build_reverse:
  "map_of (build_reverse forward) = map_of (rev (map reverse_entry forward))"
  by (simp add: build_reverse_def map_of_fold_update)

lemma build_reverse_sound:
  assumes "(e, r) \<in> set (build_reverse forward)"
  shows "\<exists>k v. (k, v) \<in> set forward \<and> e = externalId v
           \<and> r = \<lparr>knowledgeBaseId = k, name = forward_record.name v\<rparr>"
proof -
  from assms have "map_of (build_reverse forward) e = Some r"
    by (simp add: build_reverse_distinct)
  then have "map_of (rev (map reverse_entry forward)) e = Some r"
    by (simp add: map_of_build_reverse)
  then have "(e, r) \<in> set (map reverse_entry forward)"
    using map_of_SomeD by fastforce
  then show ?thesis
    by (auto simp: reverse_entry_def)
qed

lemma build_reverse_complete:
  assumes "distinct (map (externalId \<circ> snd) forward)" and "(k, v) \<in> set forward"
  shows "(externalId v, \<lparr>knowledgeBaseId = k, name = forward_record.name v\<rparr>)
           \<in> set (build_reverse forward)"
proof -
  have keys: "map fst (map reverse_entry forward) = map (externalId \<circ> snd) forward"
    by (simp add: reverse_entry_def comp_def)
  with assms(1) have "distinct (map fst (rev (map reverse_entry forward)))"
    by (simp add: rev_map [symmetric] del: map_map)
  moreover from assms(2) have "reverse_entry (k, v) \<in> set (rev (map reverse_entry forward))"
    by force
  ultimately have "map_of (rev (map reverse_entry forward)) (externalId v)
      = Some \<lparr>knowledgeBaseId = k, name = forward_record.name v\<rparr>"
    by (simp add: reverse_entry_def)
  then have "map_of (build_reverse forward) (externalId v)
      = Some \<lparr>knowledgeBaseId = k, name = forward_record.name v\<rparr>"
    by (simp add: map_of_build_reverse)
  then show ?thesis
    by (rule map_of_SomeD)
qed

lemma build_reverse_last_wins:
  assumes "forward = xs @ (k, v) # ys"
    and "externalId v \<notin> set (map (externalId \<circ> snd) ys)"
  shows "map_of (build_reverse forward) (externalId v)
           = Some \<lparr>knowledgeBaseId = k, name = forward_record.name v\<rparr>"
proof -
  have "map fst (rev (map reverse_entry ys)) = rev (map (externalId \<circ> snd) ys)"
    by (simp add: reverse_entry_def comp_def rev_map)
  with assms(2) have "externalId v \<notin> fst ` set (rev (map reverse_entry ys))"
    by (metis set_map set_rev)
  then have "map_of (rev (map reverse_entry ys)) (externalId v) = None"
    by (simp add: map_of_eq_None_iff)
  then show ?thesis
    by (simp add: map_of_build_reverse assms(1) map_add_def reverse_entry_def)
qed

section \<open>The claims\<close>

subsection \<open>Round trip\<close>

text \<open>
  Claim C1. Let the reverse table be the exact inverse of the forward table and let
  the forward table map \<open>k\<close> to \<open>{e, n}\<close>, where \<open>e\<close> is an external identifier.
  Then \<^verbatim>\<open>getOmimToMonarch(e)\<close> returns the record \<open>{knowledgeBaseId: k, name: n}\<close>.
  (An exact inverse has no two forward entries with the same external identifier.)
\<close>

theorem round_trip:
  assumes inv: "exact_inverse (monarchMappings this) (omimMappings this)"
    and entry: "map_of (monarchMappings this) k = Some (forward_value e n)"
    and ext: "external_identifier e"
  shows "getOmimToMonarch this (JStr e) = Inr (reverse_value k n)"
proof -
  from inv entry have "map_of (omimMappings this) e = Some (reverse_value k n)"
    by (simp add: exact_inverse_def)
  then have "get_prop (omimMappings this) e = reverse_value k n"
    by (rule get_prop_own)
  moreover have "trim (replace e ''OMIM:'' []) = e"
    using ext by (rule external_identifier_key)
  moreover have "truthy (reverse_value k n)"
    by (simp add: reverse_value_def)
  moreover from ext have "e \<noteq> []"
    by (simp add: external_identifier_def)
  ultimately show ?thesis
    by (simp add: getOmimToMonarch_string or_null_truthy)
qed

text \<open>
  The round trip at the entry for the external identifier 154700.
\<close>

theorem round_trip_witness:
  "exact_inverse
     [(''MONDO:0007947'', forward_value ''154700'' ''Marfan syndrome'')]
     [(''154700'', reverse_value ''MONDO:0007947'' ''Marfan syndrome'')]
   \<and> external_identifier ''154700''
   \<and> getOmimToMonarch
       \<lparr>monarchMappings = [(''MONDO:0007947'', forward_value ''154700'' ''Marfan syndrome'')],
        omimMappings = [(''154700'', reverse_value ''MONDO:0007947'' ''Marfan syndrome'')]\<rparr>
       (JStr ''154700'') = Inr (reverse_value ''MONDO:0007947'' ''Marfan syndrome'')"
proof -
  let ?m = "\<lparr>monarchMappings = [(''MONDO:0007947'', forward_value ''154700'' ''Marfan syndrome'')],
      omimMappings = [(''154700'', reverse_value ''MONDO:0007947'' ''Marfan syndrome'')]\<rparr>"
  have 0: "exact_inverse
     [(''MONDO:0007947'', forward_value ''154700'' ''Marfan syndrome'')]
     [(''154700'', reverse_value ''MONDO:0007947'' ''Marfan syndrome'')]"
    by (rule exact_inverse_single)
  then have 1: "exact_inverse (monarchMappings ?m) (omimMappings ?m)"
    by simp
  have 2: "map_of (monarchMappings ?m) ''MONDO:0007947'' = Some (forward_value ''154700'' ''Marfan syndrome'')"
    by simp
  have 3: "external_identifier ''154700''"
    by code_simp
  from 0 3 round_trip [OF 1 2 3] show ?thesis by blast
qed

subsection \<open>Misses\<close>

text \<open>
  Claim C2 says that a lookup of an identifier that is not in the loaded table returns
  \<^verbatim>\<open>null\<close>. The reverse table below has no entry \<^verbatim>\<open>constructor\<close>, and the lookup of
  that identifier by \<^verbatim>\<open>getOmimToMonarch\<close> returns the function the table object
  inherits under that name; \<^verbatim>\<open>getOmimName\<close> returns that function's name.
\<close>

theorem miss_handling_inherited_key:
  "map_of (omimMappings
       \<lparr>monarchMappings = [(''MONDO:0007947'', forward_value ''154700'' ''Marfan syndrome'')],
        omimMappings = [(''154700'', reverse_value ''MONDO:0007947'' ''Marfan syndrome'')]\<rparr>)
     ''constructor'' = None
   \<and> getOmimToMonarch
       \<lparr>monarchMappings = [(''MONDO:0007947'', forward_value ''154700'' ''Marfan syndrome'')],
        omimMappings = [(''154700'', reverse_value ''MONDO:0007947'' ''Marfan syndrome'')]\<rparr>
       (JStr ''constructor'') = Inr (JFunction ''Object'')
   \<and> getOmimName
       \<lparr>monarchMappings = [(''MONDO:0007947'', forward_value ''154700'' ''Marfan syndrome'')],
        omimMappings = [(''154700'', reverse_value ''MONDO:0007947'' ''Marfan syndrome'')]\<rparr>
       (JStr ''constructor'') = Inr (JStr ''Object'')"
  by code_simp

subsection \<open>Load failure\<close>

text \<open>
  Claim C3 says that after a failed load every lookup returns \<^verbatim>\<open>null\<close>. When the
  first fetch is rejected, \<^verbatim>\<open>loadMappings\<close> leaves two empty tables, and the lookup
  of \<^verbatim>\<open>toString\<close> by \<^verbatim>\<open>getOmimToMonarch\<close> then returns the function the empty
  table object inherits under that name; \<^verbatim>\<open>getOmimName\<close> returns that function's name.
\<close>

theorem load_failure_inherited_key:
  "loadMappings constructor (Inl NetworkError)
       (Inr (Inr [(''154700'', reverse_value ''MONDO:0007947'' ''Marfan syndrome'')]))
     = \<lparr>monarchMappings = [], omimMappings = []\<rparr>
   \<and> getOmimToMonarch
       (loadMappings constructor (Inl NetworkError)
          (Inr (Inr [(''154700'', reverse_value ''MONDO:0007947'' ''Marfan syndrome'')])))
       (JStr ''toString'') = Inr (JFunction ''toString'')
   \<and> getOmimName
       (loadMappings constructor (Inl NetworkError)
          (Inr (Inr [(''154700'', reverse_value ''MONDO:0007947'' ''Marfan syndrome'')])))
       (JStr ''toString'') = Inr (JStr ''toString'')"
  by code_simp

subsection \<open>Case of the knowledge-base identifier\<close>

text \<open>
  Claim C4. \<^verbatim>\<open>getMonarchToOmim\<close> returns the same result for two strings that are
  case variants of each other.
\<close>

theorem case_insensitive:
  assumes "case_variant s t"
  shows "getMonarchToOmim this (JStr s) = getMonarchToOmim this (JStr t)"
proof -
  from assms have "length s = length t"
    by (simp add: case_variant_def list_all2_lengthD)
  then have empty: "s = [] \<longleftrightarrow> t = []" by auto
  from assms have "toUpperCase s = toUpperCase t"
    by (rule case_variant_toUpperCase)
  then have "toUpperCase (trim s) = toUpperCase (trim t)"
    by (simp flip: trim_toUpperCase)
  with empty show ?thesis
    by (cases "s = []") (simp_all add: getMonarchToOmim_falsy getMonarchToOmim_string)
qed

text \<open>
  The identifiers \<^verbatim>\<open>mondo:0007739\<close> and \<^verbatim>\<open>MONDO:0007739\<close> are case variants and
  both give the record stored under the second.
\<close>

theorem case_insensitive_witness:
  "case_variant ''mondo:0007739'' ''MONDO:0007739''
   \<and> getMonarchToOmim
       \<lparr>monarchMappings = [(''MONDO:0007739'', forward_value ''143100'' ''Huntington disease'')],
        omimMappings = [(''143100'', reverse_value ''MONDO:0007739'' ''Huntington disease'')]\<rparr>
       (JStr ''mondo:0007739'')
     = getMonarchToOmim
       \<lparr>monarchMappings = [(''MONDO:0007739'', forward_value ''143100'' ''Huntington disease'')],
        omimMappings = [(''143100'', reverse_value ''MONDO:0007739'' ''Huntington disease'')]\<rparr>
       (JStr ''MONDO:0007739'')
   \<and> getMonarchToOmim
       \<lparr>monarchMappings = [(''MONDO:0007739'', forward_value ''143100'' ''Huntington disease'')],
        omimMappings = [(''143100'', reverse_value ''MONDO:0007739'' ''Huntington disease'')]\<rparr>
       (JStr ''MONDO:0007739'')
     = Inr (forward_value ''143100'' ''Huntington disease'')"
proof -
  have v: "case_variant ''mondo:0007739'' ''MONDO:0007739''"
    by code_simp
  have r: "getMonarchToOmim
       \<lparr>monarchMappings = [(''MONDO:0007739'', forward_value ''143100'' ''Huntington disease'')],
        omimMappings = [(''143100'', reverse_value ''MONDO:0007739'' ''Huntington disease'')]\<rparr>
       (JStr ''MONDO:0007739'')
     = Inr (forward_value ''143100'' ''Huntington disease'')"
    by code_simp
  from v r case_insensitive [OF v] show ?thesis by blast
qed

subsection \<open>The prefix of the external identifier\<close>

text \<open>
  Claim C5. For every external identifier \<open>d\<close>, \<^verbatim>\<open>getOmimToMonarch("OMIM:" + d)\<close>
  returns what \<^verbatim>\<open>getOmimToMonarch(d)\<close> returns. The token is compared with its case:
  after the prefix \<^verbatim>\<open>omim:\<close> nothing is removed, and the table is read under the
  argument with its prefix.
\<close>

theorem prefix_stripping:
  assumes ext: "external_identifier d"
  shows "getOmimToMonarch this (JStr (''OMIM:'' @ d)) = getOmimToMonarch this (JStr d)
     \<and> getOmimToMonarch this (JStr (''omim:'' @ d))
         = Inr (or_null (get_prop (omimMappings this) (''omim:'' @ d)))"
proof -
  from ext have nonempty: "d \<noteq> []"
    by (simp add: external_identifier_def)
  have "replace (''OMIM:'' @ d) ''OMIM:'' [] = d"
    by (rule replace_prefix)
  moreover have "replace d ''OMIM:'' [] = d"
    using ext by (simp add: replace_absent external_identifier_no_token)
  moreover have "''OMIM:'' @ d \<noteq> []" and "''omim:'' @ d \<noteq> []"
    by simp_all
  ultimately show ?thesis
    using nonempty lower_prefix_key [OF ext]
    by (simp only: getOmimToMonarch_string simp_thms)
qed

text \<open>
  With and without the prefix the identifier 154700 gives its record; with the
  prefix in lower case it gives \<^verbatim>\<open>null\<close>.
\<close>

theorem prefix_stripping_witness:
  "external_identifier ''154700''
   \<and> getOmimToMonarch
       \<lparr>monarchMappings = [(''MONDO:0007947'', forward_value ''154700'' ''Marfan syndrome'')],
        omimMappings = [(''154700'', reverse_value ''MONDO:0007947'' ''Marfan syndrome'')]\<rparr>
       (JStr ''OMIM:154700'')
     = getOmimToMonarch
       \<lparr>monarchMappings = [(''MONDO:0007947'', forward_value ''154700'' ''Marfan syndrome'')],
        omimMappings = [(''154700'', reverse_value ''MONDO:0007947'' ''Marfan syndrome'')]\<rparr>
       (JStr ''154700'')
   \<and> getOmimToMonarch
       \<lparr>monarchMappings = [(''MONDO:0007947'', forward_value ''154700'' ''Marfan syndrome'')],
        omimMappings = [(''154700'', reverse_value ''MONDO:0007947'' ''Marfan syndrome'')]\<rparr>
       (JStr ''154700'') = Inr (reverse_value ''MONDO:0007947'' ''Marfan syndrome'')
   \<and> getOmimToMonarch
       \<lparr>monarchMappings = [(''MONDO:0007947'', forward_value ''154700'' ''Marfan syndrome'')],
        omimMappings = [(''154700'', reverse_value ''MONDO:0007947'' ''Marfan syndrome'')]\<rparr>
       (JStr ''omim:154700'') = Inr JNull"
proof -
  let ?m = "\<lparr>monarchMappings = [(''MONDO:0007947'', forward_value ''154700'' ''Marfan syndrome'')],
        omimMappings = [(''154700'', reverse_value ''MONDO:0007947'' ''Marfan syndrome'')]\<rparr>"
  have 1: "external_identifier ''154700''" by code_simp
  have 3: "getOmimToMonarch ?m (JStr ''154700'') = Inr (reverse_value ''MONDO:0007947'' ''Marfan syndrome'')"
    by code_simp
  have 4: "or_null (get_prop (omimMappings ?m) (''omim:'' @ ''154700'')) = JNull"
    by code_simp
  from prefix_stripping [OF 1, of ?m] 1 3 4 show ?thesis by simp
qed

subsection \<open>The reverse table\<close>

text \<open>
  Claim C6. In the table the Reverse-Index Builder makes, every key occurs once;
  every entry is \<open>e \<mapsto> {k, n}\<close> for an entry \<open>k \<mapsto> {e, n}\<close> of the forward table;
  when no two forward entries share an external identifier, every forward entry
  \<open>k \<mapsto> {e, n}\<close> has its entry \<open>e \<mapsto> {k, n}\<close>; and in any case the entry under an
  external identifier is the one of the last forward entry with that identifier.
\<close>

theorem reverse_index:
  "distinct (map fst (build_reverse forward))
   \<and> (\<forall>e r. (e, r) \<in> set (build_reverse forward) \<longrightarrow>
         (\<exists>k v. (k, v) \<in> set forward \<and> e = externalId v
            \<and> r = \<lparr>knowledgeBaseId = k, name = forward_record.name v\<rparr>))
   \<and> (distinct (map (externalId \<circ> snd) forward) \<longrightarrow>
         (\<forall>k v. (k, v) \<in> set forward \<longrightarrow>
            (externalId v, \<lparr>knowledgeBaseId = k, name = forward_record.name v\<rparr>)
              \<in> set (build_reverse forward)))
   \<and> (\<forall>xs k v ys.
         forward = xs @ (k, v) # ys \<and> externalId v \<notin> set (map (externalId \<circ> snd) ys) \<longrightarrow>
         map_of (build_reverse forward) (externalId v)
           = Some \<lparr>knowledgeBaseId = k, name = forward_record.name v\<rparr>)"
proof (intro conjI allI impI)
  show "distinct (map fst (build_reverse forward))"
    by (rule build_reverse_distinct)
next
  fix e r
  assume "(e, r) \<in> set (build_reverse forward)"
  then show "\<exists>k v. (k, v) \<in> set forward \<and> e = externalId v
      \<and> r = \<lparr>knowledgeBaseId = k, name = forward_record.name v\<rparr>"
    by (rule build_reverse_sound)
next
  fix k v
  assume "distinct (map (externalId \<circ> snd) forward)" and "(k, v) \<in> set forward"
  then show "(externalId v, \<lparr>knowledgeBaseId = k, name = forward_record.name v\<rparr>)
      \<in> set (build_reverse forward)"
    by (rule build_reverse_complete)
next
  fix xs k v ys
  assume "forward = xs @ (k, v) # ys \<and> externalId v \<notin> set (map (externalId \<circ> snd) ys)"
  then show "map_of (build_reverse forward) (externalId v)
      = Some \<lparr>knowledgeBaseId = k, name = forward_record.name v\<rparr>"
    using build_reverse_last_wins by blast
qed

text \<open>
  The forward entries \<open>A \<mapsto> {1, X}\<close> and \<open>B \<mapsto> {1, Y}\<close>, in this order, give
  \<open>1 \<mapsto> {B, Y}\<close>; without the collision, \<open>A \<mapsto> {1, X}\<close> gives \<open>1 \<mapsto> {A, X}\<close>.
\<close>

theorem reverse_index_witness:
  "map_of (build_reverse
       [(''A'', \<lparr>externalId = ''1'', name = ''X''\<rparr>), (''B'', \<lparr>externalId = ''1'', name = ''Y''\<rparr>)]) ''1''
     = Some \<lparr>knowledgeBaseId = ''B'', name = ''Y''\<rparr>
   \<and> (''1'', \<lparr>knowledgeBaseId = ''A'', name = ''X''\<rparr>)
       \<in> set (build_reverse
           [(''A'', \<lparr>externalId = ''1'', name = ''X''\<rparr>), (''B'', \<lparr>externalId = ''2'', name = ''Y''\<rparr>)])"
proof -
  let ?A = "(''A'', \<lparr>externalId = ''1'', name = ''X''\<rparr>)"
  let ?B = "(''B'', \<lparr>externalId = ''1'', name = ''Y''\<rparr>)"
  let ?B2 = "(''B'', \<lparr>externalId = ''2'', name = ''Y''\<rparr>)"
  have 1: "[?A, ?B] = [?A] @ ?B # [] \<and> externalId (snd ?B) \<notin> set (map (externalId \<circ> snd) [])"
    by simp
  have 2: "distinct (map (externalId \<circ> snd) [?A, ?B2])"
    by simp
  have 3: "?A \<in> set [?A, ?B2]"
    by simp
  from reverse_index [of "[?A, ?B]"]
  have "\<forall>xs k v ys.
         [?A, ?B] = xs @ (k, v) # ys \<and> externalId v \<notin> set (map (externalId \<circ> snd) ys) \<longrightarrow>
         map_of (build_reverse [?A, ?B]) (externalId v)
           = Some \<lparr>knowledgeBaseId = k, name = forward_record.name v\<rparr>"
    by (elim conjE)
  then have "[?A, ?B] = [?A] @ ?B # [] \<and> externalId (snd ?B) \<notin> set (map (externalId \<circ> snd) []) \<longrightarrow>
         map_of (build_reverse [?A, ?B]) (externalId (snd ?B))
           = Some \<lparr>knowledgeBaseId = fst ?B, name = forward_record.name (snd ?B)\<rparr>"
    by (elim allE [where x = "[?A]"] allE [where x = "''B''"]
          allE [where x = "\<lparr>externalId = ''1'', name = ''Y''\<rparr>"] allE [where x = "[]"]) simp
  with 1 have a: "map_of (build_reverse [?A, ?B]) ''1'' = Some \<lparr>knowledgeBaseId = ''B'', name = ''Y''\<rparr>"
    by simp
  from reverse_index [of "[?A, ?B2]"] 2
  have "\<forall>k v. (k, v) \<in> set [?A, ?B2] \<longrightarrow>
            (externalId v, \<lparr>knowledgeBaseId = k, name = forward_record.name v\<rparr>)
              \<in> set (build_reverse [?A, ?B2])"
    by (elim conjE impE)
  with 3 have b: "(''1'', \<lparr>knowledgeBaseId = ''A'', name = ''X''\<rparr>) \<in> set (build_reverse [?A, ?B2])"
    by (elim allE [where x = "''A''"] allE [where x = "\<lparr>externalId = ''1'', name = ''X''\<rparr>"]) simp
  from a b show ?thesis by blast
qed

subsection \<open>The name accessors\<close>

text \<open>
  Claim C7. When \<^verbatim>\<open>getMonarchToOmim(id)\<close> returns a record, \<^verbatim>\<open>getDiseaseName(id)\<close>
  returns the property \<^verbatim>\<open>name\<close> of that record, which for a record \<open>{e, n}\<close> of the
  forward table is \<open>n\<close>; when the lookup returns \<^verbatim>\<open>null\<close>, so does the accessor;
  when the lookup throws, the accessor throws the same. \<^verbatim>\<open>getOmimName(id)\<close> is the
  same over \<^verbatim>\<open>getOmimToMonarch(id)\<close> and the records of the reverse table.
\<close>

theorem name_accessors:
  "(getMonarchToOmim this v = Inr JNull \<longrightarrow> getDiseaseName this v = Inr JNull)
   \<and> (\<forall>ps. getMonarchToOmim this v = Inr (JObj ps) \<longrightarrow>
          getDiseaseName this v = Inr (get_prop ps ''name''))
   \<and> (\<forall>e n. getMonarchToOmim this v = Inr (forward_value e n) \<longrightarrow>
          getDiseaseName this v = Inr (JStr n))
   \<and> (\<forall>err. getMonarchToOmim this v = Inl err \<longrightarrow> getDiseaseName this v = Inl err)
   \<and> (getOmimToMonarch this v = Inr JNull \<longrightarrow> getOmimName this v = Inr JNull)
   \<and> (\<forall>ps. getOmimToMonarch this v = Inr (JObj ps) \<longrightarrow>
          getOmimName this v = Inr (get_prop ps ''name''))
   \<and> (\<forall>k n. getOmimToMonarch this v = Inr (reverse_value k n) \<longrightarrow>
          getOmimName this v = Inr (JStr n))
   \<and> (\<forall>err. getOmimToMonarch this v = Inl err \<longrightarrow> getOmimName this v = Inl err)"
proof -
  have "truthy (forward_value e n)" and "truthy (reverse_value k n)" for e k n
    by (simp_all add: forward_value_def reverse_value_def)
  then show ?thesis
    by (simp add: getDiseaseName_def getOmimName_def member_name_forward_value
          member_name_reverse_value)
qed

text \<open>
  A hit in each direction gives the name stored in the record, and a miss gives
  \<^verbatim>\<open>null\<close>.
\<close>

theorem name_accessors_witness:
  "getMonarchToOmim
       \<lparr>monarchMappings = [(''MONDO:0007947'', forward_value ''154700'' ''Marfan syndrome'')],
        omimMappings = [(''154700'', reverse_value ''MONDO:0007947'' ''Marfan syndrome'')]\<rparr>
       (JStr ''mondo:0007947'') = Inr (forward_value ''154700'' ''Marfan syndrome'')
   \<and> getDiseaseName
       \<lparr>monarchMappings = [(''MONDO:0007947'', forward_value ''154700'' ''Marfan syndrome'')],
        omimMappings = [(''154700'', reverse_value ''MONDO:0007947'' ''Marfan syndrome'')]\<rparr>
       (JStr ''mondo:0007947'') = Inr (JStr ''Marfan syndrome'')
   \<and> getOmimToMonarch
       \<lparr>monarchMappings = [(''MONDO:0007947'', forward_value ''154700'' ''Marfan syndrome'')],
        omimMappings = [(''154700'', reverse_value ''MONDO:0007947'' ''Marfan syndrome'')]\<rparr>
       (JStr ''OMIM:154700'') = Inr (reverse_value ''MONDO:0007947'' ''Marfan syndrome'')
   \<and> getOmimName
       \<lparr>monarchMappings = [(''MONDO:0007947'', forward_value ''154700'' ''Marfan syndrome'')],
        omimMappings = [(''154700'', reverse_value ''MONDO:0007947'' ''Marfan syndrome'')]\<rparr>
       (JStr ''OMIM:154700'') = Inr (JStr ''Marfan syndrome'')
   \<and> getMonarchToOmim
       \<lparr>monarchMappings = [(''MONDO:0007947'', forward_value ''154700'' ''Marfan syndrome'')],
        omimMappings = [(''154700'', reverse_value ''MONDO:0007947'' ''Marfan syndrome'')]\<rparr>
       (JStr ''MONDO:9999999'') = Inr JNull
   \<and> getDiseaseName
       \<lparr>monarchMappings = [(''MONDO:0007947'', forward_value ''154700'' ''Marfan syndrome'')],
        omimMappings = [(''154700'', reverse_value ''MONDO:0007947'' ''Marfan syndrome'')]\<rparr>
       (JStr ''MONDO:9999999'') = Inr JNull"
proof -
  let ?m = "\<lparr>monarchMappings = [(''MONDO:0007947'', forward_value ''154700'' ''Marfan syndrome'')],
        omimMappings = [(''154700'', reverse_value ''MONDO:0007947'' ''Marfan syndrome'')]\<rparr>"
  have hit1: "getMonarchToOmim ?m (JStr ''mondo:0007947'') = Inr (forward_value ''154700'' ''Marfan syndrome'')"
    by code_simp
  have hit2: "getOmimToMonarch ?m (JStr ''OMIM:154700'') = Inr (reverse_value ''MONDO:0007947'' ''Marfan syndrome'')"
    by code_simp
  have miss: "getMonarchToOmim ?m (JStr ''MONDO:9999999'') = Inr JNull"
    by code_simp
  from name_accessors [of ?m "JStr ''mondo:0007947''"] hit1
  have a: "getDiseaseName ?m (JStr ''mondo:0007947'') = Inr (JStr ''Marfan syndrome'')"
    by blast
  from name_accessors [of ?m "JStr ''OMIM:154700''"] hit2
  have b: "getOmimName ?m (JStr ''OMIM:154700'') = Inr (JStr ''Marfan syndrome'')"
    by blast
  from name_accessors [of ?m "JStr ''MONDO:9999999''"] miss
  have c: "getDiseaseName ?m (JStr ''MONDO:9999999'') = Inr JNull"
    by blast
  from hit1 hit2 miss a b c show ?thesis by blast
qed

subsection \<open>Lookups change nothing\<close>

text \<open>
  Claim C8. Running the body of any of the four lookups leaves the object, and so
  both tables, as it was, and running the same call again on the object the first
  call leaves returns the same result.
\<close>

theorem lookups_pure:
  "snd (invoke c this) = this
   \<and> fst (invoke c (snd (invoke c this))) = fst (invoke c this)"
  by (cases c)
     (simp_all add: getMonarchToOmim_body_value getOmimToMonarch_body_value
        getDiseaseName_body_value getOmimName_body_value)

subsection \<open>Loading one table of two\<close>

text \<open>
  Claim C9, amended. \<^verbatim>\<open>loadMappings\<close> assigns both tables when both are fetched and
  parsed; when either fetch or either parse fails, both tables are empty, also the
  one whose document was fetched and parsed.
\<close>

theorem load_all_or_nothing:
  "loadMappings this monarchFetch omimFetch =
     (case monarchFetch of
        Inr (Inr monarchTable) \<Rightarrow>
          (case omimFetch of
             Inr (Inr omimTable) \<Rightarrow>
               this\<lparr>monarchMappings := monarchTable, omimMappings := omimTable\<rparr>
           | _ \<Rightarrow> this\<lparr>monarchMappings := [], omimMappings := []\<rparr>)
      | _ \<Rightarrow> this\<lparr>monarchMappings := [], omimMappings := []\<rparr>)"
  by (simp add: loadMappings_def loadMappings_try_def Let_def split: sum.splits)

text \<open>
  The forward table is fetched and parsed and the reverse document does not parse:
  the forward table is empty afterwards, and the lookup of a key of the fetched
  forward table, which succeeds on that table, returns \<^verbatim>\<open>null\<close>.
\<close>

theorem per_direction_counterexample:
  "getMonarchToOmim
     \<lparr>monarchMappings = [(''MONDO:0007947'', forward_value ''154700'' ''Marfan syndrome'')],
      omimMappings = []\<rparr>
     (JStr ''MONDO:0007947'') = Inr (forward_value ''154700'' ''Marfan syndrome'')
   \<and> monarchMappings
       (loadMappings constructor
          (Inr (Inr [(''MONDO:0007947'', forward_value ''154700'' ''Marfan syndrome'')]))
          (Inr (Inl SyntaxError))) = []
   \<and> getMonarchToOmim
       (loadMappings constructor
          (Inr (Inr [(''MONDO:0007947'', forward_value ''154700'' ''Marfan syndrome'')]))
          (Inr (Inl SyntaxError)))
       (JStr ''MONDO:0007947'') = Inr JNull"
  by code_simp

subsection \<open>The first occurrence of the token\<close>

text \<open>
  Claim C10. \<^verbatim>\<open>getOmimToMonarch\<close> removes the first occurrence of \<^verbatim>\<open>OMIM:\<close>
  wherever it is: when \<open>x\<close> does not contain the token, the argument
  \<open>x @ "OMIM:" @ y\<close> is looked up under the trimmed \<open>x @ y\<close>; occurrences in
  \<open>y\<close> stay.
\<close>

theorem first_occurrence_removed:
  assumes "\<not> str_includes x ''OMIM:''"
  shows "getOmimToMonarch this (JStr (x @ ''OMIM:'' @ y))
     = Inr (or_null (get_prop (omimMappings this) (trim (x @ y))))"
proof -
  have "x @ ''OMIM:'' @ y \<noteq> []" by simp
  then have "getOmimToMonarch this (JStr (x @ ''OMIM:'' @ y))
      = Inr (or_null (get_prop (omimMappings this)
          (trim (replace (x @ ''OMIM:'' @ y) ''OMIM:'' []))))"
    by (rule getOmimToMonarch_string)
  also have "replace (x @ ''OMIM:'' @ y) ''OMIM:'' [] = x @ y"
    using assms by (rule replace_first_occurrence)
  finally show ?thesis .
qed

text \<open>
  \<^verbatim>\<open>xOMIM:154700\<close> is looked up under \<^verbatim>\<open>x154700\<close> and \<^verbatim>\<open>OMIM:OMIM:154700\<close>
  under \<^verbatim>\<open>OMIM:154700\<close>.
\<close>

theorem first_occurrence_removed_witness:
  "getOmimToMonarch
       \<lparr>monarchMappings = [],
        omimMappings = [(''x154700'', JStr ''under x154700''),
                        (''OMIM:154700'', JStr ''under OMIM:154700''),
                        (''154700'', JStr ''under 154700'')]\<rparr>
       (JStr ''xOMIM:154700'') = Inr (JStr ''under x154700'')
   \<and> getOmimToMonarch
       \<lparr>monarchMappings = [],
        omimMappings = [(''x154700'', JStr ''under x154700''),
                        (''OMIM:154700'', JStr ''under OMIM:154700''),
                        (''154700'', JStr ''under 154700'')]\<rparr>
       (JStr ''OMIM:OMIM:154700'') = Inr (JStr ''under OMIM:154700'')"
proof -
  let ?m = "\<lparr>monarchMappings = [],
        omimMappings = [(''x154700'', JStr ''under x154700''),
                        (''OMIM:154700'', JStr ''under OMIM:154700''),
                        (''154700'', JStr ''under 154700'')]\<rparr>"
  have 1: "\<not> str_includes ''x'' ''OMIM:''" by simp
  have 2: "\<not> str_includes [] ''OMIM:''" by simp
  have 3: "or_null (get_prop (omimMappings ?m) (trim (''x'' @ ''154700''))) = JStr ''under x154700''"
    by code_simp
  have 4: "or_null (get_prop (omimMappings ?m) (trim ([] @ ''OMIM:154700''))) = JStr ''under OMIM:154700''"
    by code_simp
  from first_occurrence_removed [OF 1, of ?m "''154700''"] 3
  have a: "getOmimToMonarch ?m (JStr ''xOMIM:154700'') = Inr (JStr ''under x154700'')"
    by simp
  from first_occurrence_removed [OF 2, of ?m "''OMIM:154700''"] 4
  have b: "getOmimToMonarch ?m (JStr ''OMIM:OMIM:154700'') = Inr (JStr ''under OMIM:154700'')"
    by simp
  from a b show ?thesis by blast
qed

end
